theory Spec2Isabelle
  imports Main
begin

section \<open>The preprocessor as the header sees it\<close>

text \<open>
  \<^verbatim>\<open>Sources/CFreeTDS/include/CFreeTDS.h\<close> is a sequence of preprocessor directives.
  A directive is modelled as a transformer of the preprocessor's state that can fail;
  the header is the composition of its directives, in the order of its lines.
\<close>

datatype include_directive =
    Quoted string   \<comment> \<open>\<^verbatim>\<open>#include "path"\<close>\<close>
  | Angled string   \<comment> \<open>\<^verbatim>\<open>#include <name>\<close>\<close>

datatype pp_error = File_not_found include_directive

record pp_state =
  macros :: "string set"                  \<comment> \<open>the macro names defined at this point\<close>
  pragma_once :: bool                     \<comment> \<open>CFreeTDS.h is marked \<^verbatim>\<open>#pragma once\<close>\<close>
  included :: "include_directive list"    \<comment> \<open>the includes carried out, oldest first\<close>

text \<open>
  What the build toolchain supplies: the files that exist, the directory that holds
  CFreeTDS.h, and the directories searched for \<^verbatim>\<open>#include <name>\<close>.
\<close>

record toolchain =
  files :: "string set"
  header_dir :: string
  search_dirs :: "string list"

fun path_of :: "include_directive \<Rightarrow> string" where
  "path_of (Quoted p) = p"
| "path_of (Angled p) = p"

definition is_absolute :: "string \<Rightarrow> bool" where
  "is_absolute p = (case p of [] \<Rightarrow> False | c # _ \<Rightarrow> c = CHR ''/'')"

definition join :: "string \<Rightarrow> string \<Rightarrow> string" where
  "join dir name = dir @ ''/'' @ name"

text \<open>
  An absolute path names the file itself. A relative one is looked up in the search
  directories, the quoted form trying the including file's directory first.
\<close>

definition resolve :: "toolchain \<Rightarrow> include_directive \<Rightarrow> string option" where
  "resolve tc d =
     (if is_absolute (path_of d) then
        (if path_of d \<in> files tc then Some (path_of d) else None)
      else
        List.find (\<lambda>f. f \<in> files tc)
          (map (\<lambda>dir. join dir (path_of d))
             (case d of Quoted _ \<Rightarrow> header_dir tc # search_dirs tc
                      | Angled _ \<Rightarrow> search_dirs tc)))"

text \<open>The file a directive names exists where the toolchain looks for it.\<close>

definition found :: "toolchain \<Rightarrow> include_directive \<Rightarrow> bool" where
  "found tc d = (resolve tc d \<noteq> None)"

definition pp_defined :: "string \<Rightarrow> pp_state \<Rightarrow> bool" where
  "pp_defined m s = (m \<in> macros s)"

definition pp_define :: "string \<Rightarrow> pp_state \<Rightarrow> pp_state" where
  "pp_define m s = s\<lparr>macros := insert m (macros s)\<rparr>"

definition pp_once :: "pp_state \<Rightarrow> pp_state" where
  "pp_once s = s\<lparr>pragma_once := True\<rparr>"

text \<open>An include whose file is not found is a fatal error: preprocessing stops there.\<close>

definition pp_include :: "toolchain \<Rightarrow> include_directive \<Rightarrow> pp_state \<Rightarrow> pp_error + pp_state" where
  "pp_include tc d s =
     (case resolve tc d of
        None \<Rightarrow> Inl (File_not_found d)
      | Some f \<Rightarrow> Inr (s\<lparr>included := included s @ [d]\<rparr>))"

definition then_do ::
  "(pp_state \<Rightarrow> pp_error + pp_state) \<Rightarrow> (pp_state \<Rightarrow> pp_error + pp_state) \<Rightarrow>
   pp_state \<Rightarrow> pp_error + pp_state" where
  "then_do f g s = (case f s of Inl e \<Rightarrow> Inl e | Inr s' \<Rightarrow> g s')"

section \<open>CFreeTDS.h\<close>

text \<open>Lines 6 to 17: the nested conditionals and their six include lines.\<close>

definition conditional_block :: "toolchain \<Rightarrow> pp_state \<Rightarrow> pp_error + pp_state" where
  "conditional_block tc s =
     (if pp_defined ''__APPLE__'' s then
        (if pp_defined ''__x86_64__'' s then
           then_do (pp_include tc (Quoted ''/usr/local/opt/freetds/include/sybdb.h''))
                   (pp_include tc (Quoted ''/usr/local/opt/freetds/include/sybfront.h'')) s
         else
           then_do (pp_include tc (Quoted ''/opt/homebrew/opt/freetds/include/sybdb.h''))
                   (pp_include tc (Quoted ''/opt/homebrew/opt/freetds/include/sybfront.h'')) s)
      else
        then_do (pp_include tc (Angled ''sybdb.h''))
                (pp_include tc (Angled ''sybfront.h'')) s)"

text \<open>
  The whole file. A file marked \<^verbatim>\<open>#pragma once\<close> is skipped when it is included again;
  otherwise lines 1 to 4 test and define the guard and mark the file, and lines 6 to 17
  follow. The pragma stands inside the guarded region, so it is reached only when the
  guard was not defined.
\<close>

definition CFreeTDS_h :: "toolchain \<Rightarrow> pp_state \<Rightarrow> pp_error + pp_state" where
  "CFreeTDS_h tc s =
     (if pragma_once s then Inr s
      else if \<not> pp_defined ''CFREETDS_H'' s then
        conditional_block tc (pp_once (pp_define ''CFREETDS_H'' s))
      else Inr s)"

text \<open>Including the header \<open>n\<close> times in a row; a fatal error ends the run.\<close>

fun include_times :: "nat \<Rightarrow> toolchain \<Rightarrow> pp_state \<Rightarrow> pp_error + pp_state" where
  "include_times 0 tc s = Inr s"
| "include_times (Suc n) tc s = then_do (CFreeTDS_h tc) (include_times n tc) s"

section \<open>Vocabulary of the specification\<close>

text \<open>A list of include directives carried out in order, stopping at the first failure.\<close>

fun pp_includes :: "toolchain \<Rightarrow> include_directive list \<Rightarrow> pp_state \<Rightarrow> pp_error + pp_state" where
  "pp_includes tc [] s = Inr s"
| "pp_includes tc (d # ds) s =
     (case pp_include tc d s of Inl e \<Rightarrow> Inl e | Inr s' \<Rightarrow> pp_includes tc ds s')"

text \<open>The bodies of the three branches: lines 8 and 9, lines 11 and 12, lines 15 and 16.\<close>

definition usr_local_pair :: "include_directive list" where
  "usr_local_pair =
     [Quoted ''/usr/local/opt/freetds/include/sybdb.h'',
      Quoted ''/usr/local/opt/freetds/include/sybfront.h'']"

definition homebrew_pair :: "include_directive list" where
  "homebrew_pair =
     [Quoted ''/opt/homebrew/opt/freetds/include/sybdb.h'',
      Quoted ''/opt/homebrew/opt/freetds/include/sybfront.h'']"

definition system_pair :: "include_directive list" where
  "system_pair = [Angled ''sybdb.h'', Angled ''sybfront.h'']"

text \<open>The name a directive exposes: the last component of its path.\<close>

definition header_name :: "include_directive \<Rightarrow> string" where
  "header_name d = rev (takeWhile (\<lambda>c. c \<noteq> CHR ''/'') (rev (path_of d)))"

text \<open>What a run shows from outside: the fatal error, or the includes carried out.\<close>

definition outcome :: "pp_error + pp_state \<Rightarrow> pp_error + include_directive list" where
  "outcome r = (case r of Inl e \<Rightarrow> Inl e | Inr s \<Rightarrow> Inr (included s))"

text \<open>
  Build targets. The header consults two macros that the compiler predefines from the
  target, not from any source file: \<^verbatim>\<open>__APPLE__\<close> on Apple's operating systems and
  \<^verbatim>\<open>__x86_64__\<close> on the 64-bit Intel architecture. The table below is that convention of
  the C compilers (GCC, Clang), with one further macro per target to tell the others apart.
\<close>

datatype os = MacOS | Linux | FreeBSD

datatype arch = X86_64 | ARM64 | I386 | ARM32

fun is_apple :: "os \<Rightarrow> bool" where
  "is_apple MacOS = True"
| "is_apple Linux = False"
| "is_apple FreeBSD = False"

fun os_macros :: "os \<Rightarrow> string set" where
  "os_macros MacOS = {''__APPLE__''}"
| "os_macros Linux = {''__linux__''}"
| "os_macros FreeBSD = {''__FreeBSD__''}"

fun arch_macros :: "arch \<Rightarrow> string set" where
  "arch_macros X86_64 = {''__x86_64__''}"
| "arch_macros ARM64 = {''__aarch64__''}"
| "arch_macros I386 = {''__i386__''}"
| "arch_macros ARM32 = {''__arm__''}"

definition predefined :: "os \<Rightarrow> arch \<Rightarrow> string set" where
  "predefined o' a = os_macros o' \<union> arch_macros a"

text \<open>The state at the first line of a translation unit compiled for a target.\<close>

definition start :: "os \<Rightarrow> arch \<Rightarrow> pp_state" where
  "start o' a = \<lparr>macros = predefined o' a, pragma_once = False, included = []\<rparr>"

text \<open>
  A state of a build for the target: whatever else is defined, the two macros the header
  consults are as the compiler predefines them for that target.
\<close>

definition built_for :: "pp_state \<Rightarrow> os \<Rightarrow> arch \<Rightarrow> bool" where
  "built_for s o' a =
     (pp_defined ''__APPLE__'' s = is_apple o' \<and> pp_defined ''__x86_64__'' s = (a = X86_64))"

text \<open>The header has not been entered yet in this translation unit.\<close>

definition first_inclusion :: "pp_state \<Rightarrow> bool" where
  "first_inclusion s = (\<not> pragma_once s \<and> \<not> pp_defined ''CFREETDS_H'' s)"

text \<open>
  Where the specification expects the vendor headers: under an installation prefix on
  macOS (Intel, Apple Silicon), on the default include path elsewhere.
\<close>

datatype location = Prefix string | Default_include_path

fun expected_location :: "os \<Rightarrow> arch \<Rightarrow> location" where
  "expected_location MacOS X86_64 = Prefix ''/usr/local/opt/freetds/include/''"
| "expected_location MacOS ARM64 = Prefix ''/opt/homebrew/opt/freetds/include/''"
| "expected_location _ _ = Default_include_path"

definition on_search_path :: "toolchain \<Rightarrow> string \<Rightarrow> bool" where
  "on_search_path tc name = (\<exists>dir \<in> set (search_dirs tc). join dir name \<in> files tc)"

definition headers_present :: "toolchain \<Rightarrow> os \<Rightarrow> arch \<Rightarrow> bool" where
  "headers_present tc o' a =
     (case expected_location o' a of
        Prefix p \<Rightarrow> p @ ''sybdb.h'' \<in> files tc \<and> p @ ''sybfront.h'' \<in> files tc
      | Default_include_path \<Rightarrow>
          on_search_path tc ''sybdb.h'' \<and> on_search_path tc ''sybfront.h'')"

text \<open>The combinations the specification names: macOS on Intel or Apple Silicon, and
  every other operating system on any architecture.\<close>

definition supported :: "os \<Rightarrow> arch \<Rightarrow> bool" where
  "supported o' a = (if is_apple o' then a = X86_64 \<or> a = ARM64 else True)"

text \<open>Example installations, used to run the header on concrete inputs.\<close>

definition intel_mac_toolchain :: toolchain where
  "intel_mac_toolchain =
     \<lparr>files = {''/usr/local/opt/freetds/include/sybdb.h'',
               ''/usr/local/opt/freetds/include/sybfront.h''},
      header_dir = ''Sources/CFreeTDS/include'',
      search_dirs = [''/usr/include'']\<rparr>"

definition arm_mac_toolchain :: toolchain where
  "arm_mac_toolchain =
     \<lparr>files = {''/opt/homebrew/opt/freetds/include/sybdb.h'',
               ''/opt/homebrew/opt/freetds/include/sybfront.h''},
      header_dir = ''Sources/CFreeTDS/include'',
      search_dirs = [''/usr/include'']\<rparr>"

definition linux_toolchain :: toolchain where
  "linux_toolchain =
     \<lparr>files = {''/usr/include/sybdb.h'', ''/usr/include/sybfront.h''},
      header_dir = ''Sources/CFreeTDS/include'',
      search_dirs = [''/usr/local/include'', ''/usr/include'']\<rparr>"

definition bare_toolchain :: toolchain where
  "bare_toolchain =
     \<lparr>files = {}, header_dir = ''Sources/CFreeTDS/include'',
      search_dirs = [''/usr/include'']\<rparr>"

section \<open>Basic facts\<close>

lemma then_do_includes:
  "then_do (pp_include tc d1) (pp_include tc d2) s = pp_includes tc [d1, d2] s"
  by (simp add: then_do_def split: sum.splits)

lemma block_apple_x86_64:
  "pp_defined ''__APPLE__'' s \<Longrightarrow> pp_defined ''__x86_64__'' s \<Longrightarrow>
   conditional_block tc s = pp_includes tc usr_local_pair s"
  by (simp add: conditional_block_def usr_local_pair_def then_do_includes)

lemma block_apple_other:
  "pp_defined ''__APPLE__'' s \<Longrightarrow> \<not> pp_defined ''__x86_64__'' s \<Longrightarrow>
   conditional_block tc s = pp_includes tc homebrew_pair s"
  by (simp add: conditional_block_def homebrew_pair_def then_do_includes)

lemma block_not_apple:
  "\<not> pp_defined ''__APPLE__'' s \<Longrightarrow>
   conditional_block tc s = pp_includes tc system_pair s"
  by (simp add: conditional_block_def system_pair_def then_do_includes)

lemma built_for_start: "built_for (start o' a) o' a"
  by (cases o'; cases a) (simp_all add: built_for_def start_def predefined_def pp_defined_def)

lemma pp_includes_two:
  "pp_includes tc [d1, d2] s =
     (if resolve tc d1 = None then Inl (File_not_found d1)
      else if resolve tc d2 = None then Inl (File_not_found d2)
      else Inr (s\<lparr>included := included s @ [d1, d2]\<rparr>))"
  by (auto simp add: pp_include_def split: option.splits)

lemma pp_includes_result:
  "(\<exists>d \<in> set ds. pp_includes tc ds s = Inl (File_not_found d)) \<or>
   pp_includes tc ds s = Inr (s\<lparr>included := included s @ ds\<rparr>)"
proof (induction ds arbitrary: s)
  case Nil
  show ?case by simp
next
  case (Cons d ds)
  show ?case
  proof (cases "resolve tc d")
    case None
    then show ?thesis by (simp add: pp_include_def)
  next
    case (Some f)
    then have step: "pp_includes tc (d # ds) s = pp_includes tc ds (s\<lparr>included := included s @ [d]\<rparr>)"
      by (simp add: pp_include_def)
    from Cons.IH [of "s\<lparr>included := included s @ [d]\<rparr>"] show ?thesis
      unfolding step by auto
  qed
qed

lemma pp_includes_differ:
  assumes "ds \<noteq> []" and "set ds \<inter> set ds' = {}"
  shows "pp_includes tc ds s \<noteq> pp_includes tc ds' s"
proof
  assume eq: "pp_includes tc ds s = pp_includes tc ds' s"
  consider (fail) d where "d \<in> set ds" "pp_includes tc ds s = Inl (File_not_found d)"
    | (pass) "pp_includes tc ds s = Inr (s\<lparr>included := included s @ ds\<rparr>)"
    using pp_includes_result [of ds tc s] by blast
  then show False
  proof cases
    case fail
    with eq have other: "pp_includes tc ds' s = Inl (File_not_found d)" by simp
    from pp_includes_result [of ds' tc s] other have "d \<in> set ds'" by auto
    with fail(1) assms(2) show False by blast
  next
    case pass
    with eq have other: "pp_includes tc ds' s = Inr (s\<lparr>included := included s @ ds\<rparr>)" by simp
    from pp_includes_result [of ds' tc s] other
    have "s\<lparr>included := included s @ ds\<rparr> = s\<lparr>included := included s @ ds'\<rparr>" by auto
    then have "included (s\<lparr>included := included s @ ds\<rparr>) = included (s\<lparr>included := included s @ ds'\<rparr>)"
      by (rule arg_cong)
    then have "ds = ds'" by simp
    with assms show False by (cases ds) auto
  qed
qed

lemma resolve_absolute:
  "is_absolute (path_of d) \<Longrightarrow>
   resolve tc d = (if path_of d \<in> files tc then Some (path_of d) else None)"
  by (simp add: resolve_def)

lemma header_first_inclusion:
  "first_inclusion s \<Longrightarrow>
   CFreeTDS_h tc s = conditional_block tc (pp_once (pp_define ''CFREETDS_H'' s))"
  by (simp add: CFreeTDS_h_def first_inclusion_def)

lemma header_skipped:
  "pragma_once s \<or> pp_defined ''CFREETDS_H'' s \<Longrightarrow> CFreeTDS_h tc s = Inr s"
  by (auto simp add: CFreeTDS_h_def)

lemma built_for_entered:
  "built_for (pp_once (pp_define ''CFREETDS_H'' s)) o' a = built_for s o' a"
  by (simp add: built_for_def pp_once_def pp_define_def pp_defined_def)

lemma run_intel_mac:
  "pp_includes intel_mac_toolchain usr_local_pair s =
     Inr (s\<lparr>included := included s @ usr_local_pair\<rparr>)"
  by (simp add: pp_include_def usr_local_pair_def resolve_def is_absolute_def
        intel_mac_toolchain_def)

lemma run_arm_mac:
  "pp_includes arm_mac_toolchain homebrew_pair s =
     Inr (s\<lparr>included := included s @ homebrew_pair\<rparr>)"
  by (simp add: pp_include_def homebrew_pair_def resolve_def is_absolute_def
        arm_mac_toolchain_def)

lemma run_linux:
  "pp_includes linux_toolchain system_pair s =
     Inr (s\<lparr>included := included s @ system_pair\<rparr>)"
  by (simp add: pp_include_def system_pair_def resolve_def is_absolute_def join_def
        linux_toolchain_def)

lemma resolve_bare: "resolve bare_toolchain d = None"
  by (simp add: resolve_def bare_toolchain_def find_None_iff)

lemma run_bare:
  "pp_includes bare_toolchain (d # ds) s = Inl (File_not_found d)"
  by (simp add: pp_include_def resolve_bare)

lemma included_start: "included (start o' a) = []"
  by (simp add: start_def)

lemma found_quoted_absolute:
  "is_absolute p \<Longrightarrow> found tc (Quoted p) = (p \<in> files tc)"
  by (simp add: found_def resolve_def)

lemma found_angled:
  "\<not> is_absolute name \<Longrightarrow> found tc (Angled name) = on_search_path tc name"
  by (auto simp add: found_def resolve_def on_search_path_def find_None_iff)

lemma includes_two_succeed:
  "(\<exists>s'. pp_includes tc [d1, d2] s = Inr s') = (found tc d1 \<and> found tc d2)"
  unfolding pp_includes_two found_def by auto

lemma includes_two_fail:
  "\<not> (found tc d1 \<and> found tc d2) \<Longrightarrow>
   \<exists>d. pp_includes tc [d1, d2] s = Inl (File_not_found d) \<and> \<not> found tc d \<and> d \<in> {d1, d2}"
  unfolding pp_includes_two found_def by auto

lemma usr_local_present:
  "(found tc (Quoted ''/usr/local/opt/freetds/include/sybdb.h'') \<and>
    found tc (Quoted ''/usr/local/opt/freetds/include/sybfront.h'')) =
   headers_present tc MacOS X86_64"
  by (simp add: headers_present_def found_quoted_absolute is_absolute_def)

lemma homebrew_present:
  "(found tc (Quoted ''/opt/homebrew/opt/freetds/include/sybdb.h'') \<and>
    found tc (Quoted ''/opt/homebrew/opt/freetds/include/sybfront.h'')) =
   headers_present tc MacOS ARM64"
  by (simp add: headers_present_def found_quoted_absolute is_absolute_def)

lemma system_present:
  "\<not> is_apple o' \<Longrightarrow>
   (found tc (Angled ''sybdb.h'') \<and> found tc (Angled ''sybfront.h'')) =
   headers_present tc o' a"
  by (cases o'; cases a) (simp_all add: headers_present_def found_angled is_absolute_def)

text \<open>The directives the header carries out for a supported target.\<close>

lemma header_for_target:
  assumes "supported o' a" and "built_for s o' a" and "first_inclusion s"
  shows "\<exists>d1 d2.
           CFreeTDS_h tc s = pp_includes tc [d1, d2] (pp_once (pp_define ''CFREETDS_H'' s)) \<and>
           (found tc d1 \<and> found tc d2) = headers_present tc o' a"
proof -
  let ?s = "pp_once (pp_define ''CFREETDS_H'' s)"
  have run: "CFreeTDS_h tc s = conditional_block tc ?s"
    using assms(3) by (rule header_first_inclusion)
  have target: "built_for ?s o' a"
    using assms(2) by (simp add: built_for_entered)
  show ?thesis
  proof (cases "is_apple o'")
    case False
    with target have "\<not> pp_defined ''__APPLE__'' ?s" by (simp add: built_for_def)
    then have "conditional_block tc ?s = pp_includes tc [Angled ''sybdb.h'', Angled ''sybfront.h''] ?s"
      by (simp add: block_not_apple system_pair_def)
    with run system_present [OF False] show ?thesis by metis
  next
    case True
    then have mac: "o' = MacOS" by (cases o') simp_all
    from True assms(1) have "a = X86_64 \<or> a = ARM64" by (simp add: supported_def)
    then show ?thesis
    proof
      assume a: "a = X86_64"
      with True target have "pp_defined ''__APPLE__'' ?s" "pp_defined ''__x86_64__'' ?s"
        by (simp_all add: built_for_def)
      then have "conditional_block tc ?s = pp_includes tc usr_local_pair ?s"
        by (rule block_apple_x86_64)
      with run usr_local_present show ?thesis
        unfolding mac a usr_local_pair_def by metis
    next
      assume a: "a = ARM64"
      with True target have "pp_defined ''__APPLE__'' ?s" "\<not> pp_defined ''__x86_64__'' ?s"
        by (simp_all add: built_for_def)
      then have "conditional_block tc ?s = pp_includes tc homebrew_pair ?s"
        by (rule block_apple_other)
      with run homebrew_present show ?thesis
        unfolding mac a homebrew_pair_def by metis
    qed
  qed
qed

lemma first_inclusion_start: "first_inclusion (start o' a)"
  by (cases o'; cases a) (simp_all add: first_inclusion_def start_def predefined_def pp_defined_def)


lemma header_name_usr_local:
  "map header_name usr_local_pair = [''sybdb.h'', ''sybfront.h'']"
  by (simp add: usr_local_pair_def header_name_def)

lemma header_name_homebrew:
  "map header_name homebrew_pair = [''sybdb.h'', ''sybfront.h'']"
  by (simp add: homebrew_pair_def header_name_def)

lemma header_name_system:
  "map header_name system_pair = [''sybdb.h'', ''sybfront.h'']"
  by (simp add: system_pair_def header_name_def)

lemma block_branches:
  "(\<forall>tc. conditional_block tc s = pp_includes tc usr_local_pair s) \<or>
   (\<forall>tc. conditional_block tc s = pp_includes tc homebrew_pair s) \<or>
   (\<forall>tc. conditional_block tc s = pp_includes tc system_pair s)"
  using block_apple_x86_64 [of s] block_apple_other [of s] block_not_apple [of s] by blast

lemma pp_includes_success:
  "pp_includes tc ds s = Inr s' \<Longrightarrow> s' = s\<lparr>included := included s @ ds\<rparr>"
  using pp_includes_result [of ds tc s] by auto

lemma block_for_target:
  "built_for s o' a \<Longrightarrow>
   conditional_block tc s =
     pp_includes tc (if is_apple o' then if a = X86_64 then usr_local_pair else homebrew_pair
                     else system_pair) s"
  by (simp add: built_for_def block_apple_x86_64 block_apple_other block_not_apple)

lemma pairs_disjoint:
  "set usr_local_pair \<inter> set homebrew_pair = {}"
  "set usr_local_pair \<inter> set system_pair = {}"
  "set homebrew_pair \<inter> set usr_local_pair = {}"
  "set homebrew_pair \<inter> set system_pair = {}"
  "set system_pair \<inter> set usr_local_pair = {}"
  "set system_pair \<inter> set homebrew_pair = {}"
  by (simp_all add: usr_local_pair_def homebrew_pair_def system_pair_def)

lemma pairs_nonempty:
  "usr_local_pair \<noteq> []" "homebrew_pair \<noteq> []" "system_pair \<noteq> []"
  by (simp_all add: usr_local_pair_def homebrew_pair_def system_pair_def)

lemma branches_differ:
  "pp_includes tc usr_local_pair s \<noteq> pp_includes tc homebrew_pair s"
  "pp_includes tc usr_local_pair s \<noteq> pp_includes tc system_pair s"
  "pp_includes tc homebrew_pair s \<noteq> pp_includes tc usr_local_pair s"
  "pp_includes tc homebrew_pair s \<noteq> pp_includes tc system_pair s"
  "pp_includes tc system_pair s \<noteq> pp_includes tc usr_local_pair s"
  "pp_includes tc system_pair s \<noteq> pp_includes tc homebrew_pair s"
  by (rule pp_includes_differ, rule pairs_nonempty, rule pairs_disjoint)+

lemma outcome_includes:
  "included s1 = included s2 \<Longrightarrow>
   outcome (pp_includes tc ds s1) = outcome (pp_includes tc ds s2)"
proof (induction ds arbitrary: s1 s2)
  case Nil
  then show ?case by (simp add: outcome_def)
next
  case (Cons d ds)
  show ?case
  proof (cases "resolve tc d")
    case None
    then show ?thesis by (simp add: pp_include_def outcome_def)
  next
    case (Some f)
    have "included (s1\<lparr>included := included s1 @ [d]\<rparr>) =
          included (s2\<lparr>included := included s2 @ [d]\<rparr>)"
      using Cons.prems by simp
    then have "outcome (pp_includes tc ds (s1\<lparr>included := included s1 @ [d]\<rparr>)) =
               outcome (pp_includes tc ds (s2\<lparr>included := included s2 @ [d]\<rparr>))"
      by (rule Cons.IH)
    with Some show ?thesis by (simp add: pp_include_def)
  qed
qed

lemma not_apple_macro_start: "pp_defined ''__APPLE__'' (start o' a) = is_apple o'"
  using built_for_start [of o' a] by (simp add: built_for_def)

lemma x86_64_macro_start: "pp_defined ''__x86_64__'' (start o' a) = (a = X86_64)"
  using built_for_start [of o' a] by (simp add: built_for_def)

lemma pp_includes_same_found:
  "(\<And>d. d \<in> set ds \<Longrightarrow> found tc1 d = found tc2 d) \<Longrightarrow>
   pp_includes tc1 ds s = pp_includes tc2 ds s"
proof (induction ds arbitrary: s)
  case Nil
  show ?case by simp
next
  case (Cons d ds)
  have "found tc1 d = found tc2 d" by (rule Cons.prems) simp
  then have step: "pp_include tc1 d s = pp_include tc2 d s"
    by (auto simp add: pp_include_def found_def split: option.splits)
  have "pp_includes tc1 ds s' = pp_includes tc2 ds s'" for s'
    by (rule Cons.IH) (simp add: Cons.prems)
  with step show ?case by (simp split: sum.splits)
qed

lemma resolve_absolute_any_search:
  "is_absolute (path_of d) \<Longrightarrow>
   resolve (tc\<lparr>header_dir := h, search_dirs := dirs\<rparr>) d = resolve tc d"
  by (simp add: resolve_def)

lemma apple_pairs_absolute:
  "d \<in> set usr_local_pair \<union> set homebrew_pair \<Longrightarrow> is_absolute (path_of d)"
  by (auto simp add: usr_local_pair_def homebrew_pair_def is_absolute_def)

lemma include_times_skipped:
  "pragma_once s \<or> pp_defined ''CFREETDS_H'' s \<Longrightarrow> include_times n tc s = Inr s"
  by (induction n) (simp_all add: then_do_def header_skipped)

lemma header_entered:
  assumes "first_inclusion s" and "CFreeTDS_h tc s = Inr s'"
  shows "s' = (pp_once (pp_define ''CFREETDS_H'' s))
              \<lparr>included := included s @ (if pp_defined ''__APPLE__'' s
                                          then if pp_defined ''__x86_64__'' s then usr_local_pair
                                               else homebrew_pair
                                          else system_pair)\<rparr>"
proof -
  let ?s = "pp_once (pp_define ''CFREETDS_H'' s)"
  let ?ds = "if pp_defined ''__APPLE__'' s then if pp_defined ''__x86_64__'' s then usr_local_pair
             else homebrew_pair else system_pair"
  have keys: "pp_defined ''__APPLE__'' ?s = pp_defined ''__APPLE__'' s"
    "pp_defined ''__x86_64__'' ?s = pp_defined ''__x86_64__'' s"
    by (simp_all add: pp_defined_def pp_once_def pp_define_def)
  have "conditional_block tc ?s = pp_includes tc ?ds ?s"
    using block_apple_x86_64 [of ?s tc] block_apple_other [of ?s tc] block_not_apple [of ?s tc]
    by (simp add: keys)
  with assms have "pp_includes tc ?ds ?s = Inr s'"
    by (simp add: header_first_inclusion)
  then have "s' = ?s\<lparr>included := included ?s @ ?ds\<rparr>" by (rule pp_includes_success)
  moreover have "included ?s = included s" by (simp add: pp_once_def pp_define_def)
  ultimately show ?thesis by simp
qed

lemma header_marks:
  assumes "CFreeTDS_h tc s = Inr s'"
  shows "pragma_once s' \<or> pp_defined ''CFREETDS_H'' s'"
proof (cases "first_inclusion s")
  case True
  from header_entered [OF True assms] have "pragma_once s'"
    by (simp add: pp_once_def pp_define_def)
  then show ?thesis ..
next
  case False
  then have skip: "pragma_once s \<or> pp_defined ''CFREETDS_H'' s"
    by (auto simp add: first_inclusion_def)
  with assms have "s' = s" by (simp add: header_skipped)
  with skip show ?thesis by simp
qed

lemma include_again:
  "include_times (Suc n) tc s = CFreeTDS_h tc s"
proof (cases "CFreeTDS_h tc s")
  case (Inl e)
  then show ?thesis by (simp add: then_do_def)
next
  case (Inr s')
  then have "include_times n tc s' = Inr s'"
    by (intro include_times_skipped header_marks)
  with Inr show ?thesis by (simp add: then_do_def)
qed

lemma header_adds_at_most_one_pair:
  assumes "CFreeTDS_h tc s = Inr s'"
  shows "included s' = included s \<or>
         (\<exists>d1 d2. included s' = included s @ [d1, d2] \<and>
            header_name d1 = ''sybdb.h'' \<and> header_name d2 = ''sybfront.h'')"
proof (cases "first_inclusion s")
  case True
  define ds where "ds = (if pp_defined ''__APPLE__'' s
      then if pp_defined ''__x86_64__'' s then usr_local_pair else homebrew_pair
      else system_pair)"
  have ds: "ds \<in> {usr_local_pair, homebrew_pair, system_pair}"
    by (simp add: ds_def)
  from header_entered [OF True assms] have inc: "included s' = included s @ ds"
    by (simp add: ds_def)
  from ds have "map header_name ds = [''sybdb.h'', ''sybfront.h'']"
    using header_name_usr_local header_name_homebrew header_name_system
    by (elim insertE emptyE) simp_all
  then obtain d1 d2 where "ds = [d1, d2]" "header_name d1 = ''sybdb.h''"
    "header_name d2 = ''sybfront.h''"
    by (auto simp add: map_eq_Cons_conv)
  with inc show ?thesis by blast
next
  case False
  then have "pragma_once s \<or> pp_defined ''CFREETDS_H'' s"
    by (auto simp add: first_inclusion_def)
  with assms have "s' = s" by (simp add: header_skipped)
  then show ?thesis by simp
qed

lemma header_from_start:
  "CFreeTDS_h tc (start o' a) =
     pp_includes tc (if is_apple o' then if a = X86_64 then usr_local_pair else homebrew_pair
                     else system_pair)
       (pp_once (pp_define ''CFREETDS_H'' (start o' a)))"
proof -
  have "built_for (pp_once (pp_define ''CFREETDS_H'' (start o' a))) o' a"
    by (simp add: built_for_entered built_for_start)
  then show ?thesis
    by (simp add: header_first_inclusion first_inclusion_start block_for_target)
qed

section \<open>Properties of the header\<close>

text \<open>
  C1. For every build target the conditionals select the include lines by platform: on
  Intel macOS the two headers are included, quoted, from the absolute prefix
  \<^verbatim>\<open>/usr/local/opt/freetds/include/\<close>; on Apple Silicon macOS from
  \<^verbatim>\<open>/opt/homebrew/opt/freetds/include/\<close>; on every platform that is not Apple's they
  are included in angle brackets, to be found on the default include path. In each case
  the block does exactly what the two include lines do, in any state of a build for that
  target and with any toolchain.
\<close>

theorem include_locations_by_platform:
  assumes "built_for s o' a"
  shows "(o' = MacOS \<and> a = X86_64 \<longrightarrow>
            conditional_block tc s =
              pp_includes tc [Quoted (''/usr/local/opt/freetds/include/'' @ ''sybdb.h''),
                              Quoted (''/usr/local/opt/freetds/include/'' @ ''sybfront.h'')] s)
       \<and> (o' = MacOS \<and> a = ARM64 \<longrightarrow>
            conditional_block tc s =
              pp_includes tc [Quoted (''/opt/homebrew/opt/freetds/include/'' @ ''sybdb.h''),
                              Quoted (''/opt/homebrew/opt/freetds/include/'' @ ''sybfront.h'')] s)
       \<and> (\<not> is_apple o' \<longrightarrow>
            conditional_block tc s = pp_includes tc [Angled ''sybdb.h'', Angled ''sybfront.h''] s)"
proof (intro conjI impI)
  assume "o' = MacOS \<and> a = X86_64"
  with assms have "pp_defined ''__APPLE__'' s" "pp_defined ''__x86_64__'' s"
    by (simp_all add: built_for_def)
  then show "conditional_block tc s =
      pp_includes tc [Quoted (''/usr/local/opt/freetds/include/'' @ ''sybdb.h''),
                      Quoted (''/usr/local/opt/freetds/include/'' @ ''sybfront.h'')] s"
    by (simp add: block_apple_x86_64 usr_local_pair_def)
next
  assume "o' = MacOS \<and> a = ARM64"
  with assms have "pp_defined ''__APPLE__'' s" "\<not> pp_defined ''__x86_64__'' s"
    by (simp_all add: built_for_def)
  then show "conditional_block tc s =
      pp_includes tc [Quoted (''/opt/homebrew/opt/freetds/include/'' @ ''sybdb.h''),
                      Quoted (''/opt/homebrew/opt/freetds/include/'' @ ''sybfront.h'')] s"
    by (simp add: block_apple_other homebrew_pair_def)
next
  assume "\<not> is_apple o'"
  with assms have "\<not> pp_defined ''__APPLE__'' s"
    by (simp add: built_for_def)
  then show "conditional_block tc s = pp_includes tc [Angled ''sybdb.h'', Angled ''sybfront.h''] s"
    by (simp add: block_not_apple system_pair_def)
qed

theorem include_locations_by_platform_witness:
  "built_for (start MacOS X86_64) MacOS X86_64
   \<and> conditional_block intel_mac_toolchain (start MacOS X86_64) =
       Inr ((start MacOS X86_64)\<lparr>included := usr_local_pair\<rparr>)
   \<and> built_for (start MacOS ARM64) MacOS ARM64
   \<and> conditional_block arm_mac_toolchain (start MacOS ARM64) =
       Inr ((start MacOS ARM64)\<lparr>included := homebrew_pair\<rparr>)
   \<and> built_for (start Linux ARM64) Linux ARM64
   \<and> conditional_block linux_toolchain (start Linux ARM64) =
       Inr ((start Linux ARM64)\<lparr>included := system_pair\<rparr>)"
proof -
  have "conditional_block intel_mac_toolchain (start MacOS X86_64) =
          pp_includes intel_mac_toolchain usr_local_pair (start MacOS X86_64)"
    using include_locations_by_platform [OF built_for_start, of MacOS X86_64 intel_mac_toolchain]
    by (simp add: usr_local_pair_def)
  moreover have "conditional_block arm_mac_toolchain (start MacOS ARM64) =
          pp_includes arm_mac_toolchain homebrew_pair (start MacOS ARM64)"
    using include_locations_by_platform [OF built_for_start, of MacOS ARM64 arm_mac_toolchain]
    by (simp add: homebrew_pair_def)
  moreover have "conditional_block linux_toolchain (start Linux ARM64) =
          pp_includes linux_toolchain system_pair (start Linux ARM64)"
    using include_locations_by_platform [OF built_for_start, of Linux ARM64 linux_toolchain]
    by (simp add: system_pair_def)
  ultimately show ?thesis
    by (simp add: built_for_start run_intel_mac run_arm_mac run_linux included_start)
qed

text \<open>
  C2. For every supported combination of operating system and architecture, the first
  inclusion of the header in a translation unit succeeds if and only if \<^verbatim>\<open>sybdb.h\<close> and
  \<^verbatim>\<open>sybfront.h\<close> are present at the location expected for the platform. When they are
  not, the result is the fatal error of an include whose file is not found: the run ends
  there, with no state to continue from. The result is a function of the state and the
  toolchain, so the same build fails in the same way every time. The vendor headers'
  own contents are outside the file and are not modelled.
\<close>

theorem compilation_succeeds_iff_headers_present:
  assumes "supported o' a" and "built_for s o' a" and "first_inclusion s"
  shows "(\<exists>s'. CFreeTDS_h tc s = Inr s') = headers_present tc o' a
       \<and> (\<not> headers_present tc o' a \<longrightarrow>
            (\<exists>d. CFreeTDS_h tc s = Inl (File_not_found d) \<and> \<not> found tc d))"
proof -
  from header_for_target [OF assms] obtain d1 d2 where
    run: "CFreeTDS_h tc s = pp_includes tc [d1, d2] (pp_once (pp_define ''CFREETDS_H'' s))" and
    present: "(found tc d1 \<and> found tc d2) = headers_present tc o' a"
    by blast
  have "(\<exists>s'. CFreeTDS_h tc s = Inr s') = headers_present tc o' a"
    unfolding run includes_two_succeed present ..
  moreover have "\<exists>d. CFreeTDS_h tc s = Inl (File_not_found d) \<and> \<not> found tc d"
    if "\<not> headers_present tc o' a"
    using includes_two_fail [of tc d1 d2] that present unfolding run by blast
  ultimately show ?thesis by blast
qed

theorem compilation_succeeds_iff_headers_present_witness:
  "supported MacOS X86_64 \<and> built_for (start MacOS X86_64) MacOS X86_64
   \<and> first_inclusion (start MacOS X86_64)
   \<and> headers_present intel_mac_toolchain MacOS X86_64
   \<and> (\<exists>s'. CFreeTDS_h intel_mac_toolchain (start MacOS X86_64) = Inr s')
   \<and> supported Linux ARM64 \<and> built_for (start Linux ARM64) Linux ARM64
   \<and> first_inclusion (start Linux ARM64)
   \<and> \<not> headers_present bare_toolchain Linux ARM64
   \<and> (\<exists>d. CFreeTDS_h bare_toolchain (start Linux ARM64) = Inl (File_not_found d))"
proof -
  have mac: "supported MacOS X86_64" and linux: "supported Linux ARM64"
    by (simp_all add: supported_def)
  have present: "headers_present intel_mac_toolchain MacOS X86_64"
    by (simp add: headers_present_def intel_mac_toolchain_def)
  have absent: "\<not> headers_present bare_toolchain Linux ARM64"
    by (simp add: headers_present_def on_search_path_def bare_toolchain_def)
  from compilation_succeeds_iff_headers_present
         [OF mac built_for_start first_inclusion_start, of intel_mac_toolchain] present
  have "\<exists>s'. CFreeTDS_h intel_mac_toolchain (start MacOS X86_64) = Inr s'"
    by simp
  moreover from compilation_succeeds_iff_headers_present
         [OF linux built_for_start first_inclusion_start, of bare_toolchain] absent
  have "\<exists>d. CFreeTDS_h bare_toolchain (start Linux ARM64) = Inl (File_not_found d)"
    by blast
  ultimately show ?thesis
    using mac linux present absent by (simp add: built_for_start first_inclusion_start)
qed

text \<open>
  C3. In every state, so on every platform, the block carries out exactly two include
  directives, the first naming \<^verbatim>\<open>sybdb.h\<close> and the second \<^verbatim>\<open>sybfront.h\<close>: no branch
  includes another header, none omits one of the two, and the order is the same in all
  of them. When the block succeeds, exactly these two names have been added, in this
  order, to the includes carried out.
\<close>

theorem exposes_sybdb_then_sybfront:
  "(\<exists>d1 d2. header_name d1 = ''sybdb.h'' \<and> header_name d2 = ''sybfront.h'' \<and>
      (\<forall>tc. conditional_block tc s = pp_includes tc [d1, d2] s))
   \<and> (\<forall>tc s'. conditional_block tc s = Inr s' \<longrightarrow>
         map header_name (included s') =
           map header_name (included s) @ [''sybdb.h'', ''sybfront.h''])"
proof -
  have "\<exists>ds. map header_name ds = [''sybdb.h'', ''sybfront.h''] \<and>
          (\<forall>tc. conditional_block tc s = pp_includes tc ds s)"
    using block_branches [of s]
  proof (elim disjE)
    assume "\<forall>tc. conditional_block tc s = pp_includes tc usr_local_pair s"
    with header_name_usr_local show ?thesis by (intro exI conjI)
  next
    assume "\<forall>tc. conditional_block tc s = pp_includes tc homebrew_pair s"
    with header_name_homebrew show ?thesis by (intro exI conjI)
  next
    assume "\<forall>tc. conditional_block tc s = pp_includes tc system_pair s"
    with header_name_system show ?thesis by (intro exI conjI)
  qed
  then obtain ds where names: "map header_name ds = [''sybdb.h'', ''sybfront.h'']"
    and run: "\<forall>tc. conditional_block tc s = pp_includes tc ds s"
    by (elim exE conjE)
  from names obtain d1 d2 where ds: "ds = [d1, d2]"
    and n: "header_name d1 = ''sybdb.h''" "header_name d2 = ''sybfront.h''"
    by (auto simp add: map_eq_Cons_conv)
  have "map header_name (included s') = map header_name (included s) @ [''sybdb.h'', ''sybfront.h'']"
    if "conditional_block tc s = Inr s'" for tc s'
  proof -
    from that run have "pp_includes tc ds s = Inr s'" by simp
    then have "s' = s\<lparr>included := included s @ ds\<rparr>" by (rule pp_includes_success)
    then show ?thesis using names by simp
  qed
  with ds n run show ?thesis by blast
qed

theorem exposes_sybdb_then_sybfront_witness:
  "conditional_block linux_toolchain (start FreeBSD I386) =
     Inr ((start FreeBSD I386)\<lparr>included := system_pair\<rparr>)
   \<and> map header_name (included ((start FreeBSD I386)\<lparr>included := system_pair\<rparr>)) =
       [''sybdb.h'', ''sybfront.h'']"
proof -
  have "\<not> pp_defined ''__APPLE__'' (start FreeBSD I386)"
    by (simp add: pp_defined_def start_def predefined_def)
  then have run: "conditional_block linux_toolchain (start FreeBSD I386) =
      Inr ((start FreeBSD I386)\<lparr>included := system_pair\<rparr>)"
    by (simp add: block_not_apple run_linux included_start)
  from exposes_sybdb_then_sybfront [of "start FreeBSD I386"]
  have "conditional_block linux_toolchain (start FreeBSD I386) =
          Inr ((start FreeBSD I386)\<lparr>included := system_pair\<rparr>) \<longrightarrow>
        map header_name (included ((start FreeBSD I386)\<lparr>included := system_pair\<rparr>)) =
          map header_name (included (start FreeBSD I386)) @ [''sybdb.h'', ''sybfront.h'']"
    by (elim conjE allE)
  with run show ?thesis by (simp add: included_start)
qed

text \<open>
  C4. The selection is a total function of the pair (operating system, architecture).
  For every pair exactly one of the three branches is the one that every build for that
  pair takes, whatever its state and toolchain. Two builds for the same pair, starting
  from the same includes carried out and using the same toolchain, have the same outcome:
  no other macro, and no other part of the state, influences it.
\<close>

theorem resolution_is_function_of_target:
  "(\<exists>!ds. ds \<in> {usr_local_pair, homebrew_pair, system_pair} \<and>
       (\<forall>s tc. built_for s o' a \<longrightarrow> conditional_block tc s = pp_includes tc ds s))
   \<and> (\<forall>s1 s2 tc. built_for s1 o' a \<and> built_for s2 o' a \<and> included s1 = included s2 \<longrightarrow>
         outcome (conditional_block tc s1) = outcome (conditional_block tc s2))"
proof -
  define sel where "sel = (if is_apple o' then if a = X86_64 then usr_local_pair else homebrew_pair
             else system_pair)"
  have run: "conditional_block tc s = pp_includes tc sel s" if "built_for s o' a" for s tc
    unfolding sel_def using that by (rule block_for_target)
  have sel: "sel \<in> {usr_local_pair, homebrew_pair, system_pair}"
    by (simp add: sel_def)
  have only: "ds = sel"
    if ds: "ds \<in> {usr_local_pair, homebrew_pair, system_pair}"
      and runs: "\<forall>s tc. built_for s o' a \<longrightarrow> conditional_block tc s = pp_includes tc ds s"
    for ds
  proof (rule ccontr)
    assume neq: "ds \<noteq> sel"
    have "conditional_block bare_toolchain (start o' a) =
        pp_includes bare_toolchain ds (start o' a)"
      by (rule runs [rule_format, OF built_for_start])
    with run [OF built_for_start, of bare_toolchain]
    have same: "pp_includes bare_toolchain ds (start o' a) =
        pp_includes bare_toolchain sel (start o' a)"
      by simp
    from ds sel neq have "pp_includes bare_toolchain ds (start o' a) \<noteq>
        pp_includes bare_toolchain sel (start o' a)"
      using branches_differ [of bare_toolchain "start o' a"] by (elim insertE emptyE) simp_all
    with same show False by simp
  qed
  have one: "\<exists>!ds. ds \<in> {usr_local_pair, homebrew_pair, system_pair} \<and>
       (\<forall>s tc. built_for s o' a \<longrightarrow> conditional_block tc s = pp_includes tc ds s)"
  proof (rule ex1I [of _ sel])
    show "sel \<in> {usr_local_pair, homebrew_pair, system_pair} \<and>
       (\<forall>s tc. built_for s o' a \<longrightarrow> conditional_block tc s = pp_includes tc sel s)"
      using sel run by (intro conjI allI impI)
  next
    fix ds
    assume "ds \<in> {usr_local_pair, homebrew_pair, system_pair} \<and>
       (\<forall>s tc. built_for s o' a \<longrightarrow> conditional_block tc s = pp_includes tc ds s)"
    then show "ds = sel" using only by (elim conjE)
  qed
  have same_outcome: "outcome (conditional_block tc s1) = outcome (conditional_block tc s2)"
    if both: "built_for s1 o' a \<and> built_for s2 o' a \<and> included s1 = included s2"
    for s1 s2 tc
  proof -
    from both have r1: "conditional_block tc s1 = pp_includes tc sel s1"
      and r2: "conditional_block tc s2 = pp_includes tc sel s2"
      by (simp_all only: run)
    from both have "included s1 = included s2" by simp
    then show ?thesis unfolding r1 r2 by (rule outcome_includes)
  qed
  from one same_outcome show ?thesis by (intro conjI allI impI)
qed

theorem resolution_is_function_of_target_witness:
  "built_for (start Linux X86_64) Linux X86_64
   \<and> built_for ((start Linux X86_64)\<lparr>macros := insert ''NDEBUG'' (predefined Linux X86_64)\<rparr>)
        Linux X86_64
   \<and> outcome (conditional_block linux_toolchain (start Linux X86_64)) = Inr system_pair
   \<and> outcome (conditional_block linux_toolchain
         ((start Linux X86_64)\<lparr>macros := insert ''NDEBUG'' (predefined Linux X86_64)\<rparr>)) =
       Inr system_pair"
proof -
  let ?s = "start Linux X86_64"
  let ?s' = "?s\<lparr>macros := insert ''NDEBUG'' (predefined Linux X86_64)\<rparr>"
  have b: "built_for ?s Linux X86_64" by (rule built_for_start)
  have b': "built_for ?s' Linux X86_64"
    by (simp add: built_for_def pp_defined_def predefined_def)
  from resolution_is_function_of_target [of Linux X86_64]
  have "built_for ?s Linux X86_64 \<and> built_for ?s' Linux X86_64 \<and> included ?s = included ?s' \<longrightarrow>
        outcome (conditional_block linux_toolchain ?s) = outcome (conditional_block linux_toolchain ?s')"
    by (elim conjE allE)
  with b b' have "outcome (conditional_block linux_toolchain ?s) =
      outcome (conditional_block linux_toolchain ?s')"
    by simp
  moreover have "outcome (conditional_block linux_toolchain ?s) = Inr system_pair"
    by (simp add: block_for_target [OF b] run_linux outcome_def included_start)
  ultimately show ?thesis using b b' by simp
qed

text \<open>
  C5. On macOS the selection is made by one test, whether the architecture is x86_64.
  A macOS target takes the \<^verbatim>\<open>/usr/local/opt/freetds\<close> paths if and only if its
  architecture is Intel (x86_64), and the \<^verbatim>\<open>/opt/homebrew/opt/freetds\<close> paths if and
  only if its architecture is anything else; Apple Silicon is one such architecture.
\<close>

theorem macos_selection_by_x86_64:
  assumes "built_for s MacOS a"
  shows "((conditional_block tc s = pp_includes tc usr_local_pair s) = (a = X86_64))
       \<and> ((conditional_block tc s = pp_includes tc homebrew_pair s) = (a \<noteq> X86_64))
       \<and> (a = ARM64 \<longrightarrow> conditional_block tc s = pp_includes tc homebrew_pair s)"
proof (cases "a = X86_64")
  case True
  with assms have "conditional_block tc s = pp_includes tc usr_local_pair s"
    by (simp add: block_for_target [OF assms])
  with True show ?thesis by (simp add: branches_differ)
next
  case False
  with assms have "conditional_block tc s = pp_includes tc homebrew_pair s"
    by (simp add: block_for_target [OF assms])
  with False show ?thesis by (simp add: branches_differ)
qed

theorem macos_selection_by_x86_64_witness:
  "built_for (start MacOS X86_64) MacOS X86_64
   \<and> conditional_block intel_mac_toolchain (start MacOS X86_64) =
       pp_includes intel_mac_toolchain usr_local_pair (start MacOS X86_64)
   \<and> built_for (start MacOS ARM64) MacOS ARM64
   \<and> conditional_block arm_mac_toolchain (start MacOS ARM64) =
       pp_includes arm_mac_toolchain homebrew_pair (start MacOS ARM64)
   \<and> built_for (start MacOS ARM32) MacOS ARM32
   \<and> conditional_block arm_mac_toolchain (start MacOS ARM32) =
       pp_includes arm_mac_toolchain homebrew_pair (start MacOS ARM32)"
  using macos_selection_by_x86_64 [OF built_for_start, where a = X86_64 and tc = intel_mac_toolchain]
        macos_selection_by_x86_64 [OF built_for_start, where a = ARM64 and tc = arm_mac_toolchain]
        macos_selection_by_x86_64 [OF built_for_start, where a = ARM32 and tc = arm_mac_toolchain]
  by (simp add: built_for_start)

text \<open>
  Read with "if and only if its architecture is Apple Silicon" for the Homebrew paths,
  the property fails. A macOS build for 32-bit Intel (i386) defines
  \<^verbatim>\<open>__APPLE__\<close> and not \<^verbatim>\<open>__x86_64__\<close>: it takes the \<^verbatim>\<open>#else\<close> of line 10 and
  includes the Homebrew paths, although its architecture is not Apple Silicon.
\<close>

theorem homebrew_iff_apple_silicon_counterexample:
  "built_for (start MacOS I386) MacOS I386
   \<and> \<not> ((conditional_block arm_mac_toolchain (start MacOS I386) =
           pp_includes arm_mac_toolchain homebrew_pair (start MacOS I386)) = (I386 = ARM64))
   \<and> conditional_block arm_mac_toolchain (start MacOS I386) =
       Inr ((start MacOS I386)\<lparr>included := homebrew_pair\<rparr>)"
proof -
  have run: "conditional_block arm_mac_toolchain (start MacOS I386) =
      pp_includes arm_mac_toolchain homebrew_pair (start MacOS I386)"
    by (rule block_apple_other) (simp_all add: not_apple_macro_start x86_64_macro_start)
  then have "conditional_block arm_mac_toolchain (start MacOS I386) =
       Inr ((start MacOS I386)\<lparr>included := homebrew_pair\<rparr>)"
    by (simp add: run_arm_mac included_start)
  with run show ?thesis by (simp add: built_for_start)
qed

text \<open>
  C6. The selection is keyed on operating system and architecture only, and what it
  selects is fixed text of the file: for a build for a given pair the block carries out
  the include directives of that pair's branch, whatever the rest of the state and
  whatever the toolchain. The macOS directives hold absolute paths, so the file each
  names is that path itself, and on macOS the block's result does not depend on the
  directory of the header or on the include search directories. On other platforms the
  location selected is the default include path, under the two fixed names.
\<close>

theorem locations_fixed_by_target:
  assumes "built_for s o' a"
  shows "conditional_block tc s =
           pp_includes tc (if is_apple o' then if a = X86_64 then usr_local_pair else homebrew_pair
                           else system_pair) s
       \<and> (\<forall>d \<in> set usr_local_pair \<union> set homebrew_pair.
             is_absolute (path_of d) \<and>
             resolve tc d = (if path_of d \<in> files tc then Some (path_of d) else None))
       \<and> (is_apple o' \<longrightarrow>
             conditional_block (tc\<lparr>header_dir := h, search_dirs := dirs\<rparr>) s =
             conditional_block tc s)"
proof (intro conjI ballI impI)
  show "conditional_block tc s =
           pp_includes tc (if is_apple o' then if a = X86_64 then usr_local_pair else homebrew_pair
                           else system_pair) s"
    using assms by (rule block_for_target)
next
  fix d assume "d \<in> set usr_local_pair \<union> set homebrew_pair"
  then show "is_absolute (path_of d)" by (rule apple_pairs_absolute)
next
  fix d assume "d \<in> set usr_local_pair \<union> set homebrew_pair"
  then have "is_absolute (path_of d)" by (rule apple_pairs_absolute)
  then show "resolve tc d = (if path_of d \<in> files tc then Some (path_of d) else None)"
    by (rule resolve_absolute)
next
  assume apple: "is_apple o'"
  let ?tc = "tc\<lparr>header_dir := h, search_dirs := dirs\<rparr>"
  let ?ds = "if a = X86_64 then usr_local_pair else homebrew_pair"
  have same: "found ?tc d = found tc d" if "d \<in> set ?ds" for d
  proof -
    from that have "d \<in> set usr_local_pair \<union> set homebrew_pair" by (simp split: if_splits)
    then have "is_absolute (path_of d)" by (rule apple_pairs_absolute)
    then show ?thesis by (simp add: found_def resolve_absolute_any_search)
  qed
  have "pp_includes ?tc ?ds s = pp_includes tc ?ds s"
    by (rule pp_includes_same_found) (rule same)
  with apple show "conditional_block ?tc s = conditional_block tc s"
    by (simp add: block_for_target [OF assms])
qed

theorem locations_fixed_by_target_witness:
  "built_for (start MacOS ARM64) MacOS ARM64
   \<and> conditional_block arm_mac_toolchain (start MacOS ARM64) =
       Inr ((start MacOS ARM64)\<lparr>included := homebrew_pair\<rparr>)
   \<and> conditional_block (arm_mac_toolchain\<lparr>header_dir := ''/tmp'', search_dirs := []\<rparr>)
         (start MacOS ARM64) =
       Inr ((start MacOS ARM64)\<lparr>included := homebrew_pair\<rparr>)"
proof -
  have b: "built_for (start MacOS ARM64) MacOS ARM64" by (rule built_for_start)
  from locations_fixed_by_target
         [OF b, where tc = arm_mac_toolchain and h = "''/tmp''" and dirs = "[]"]
  have run: "conditional_block arm_mac_toolchain (start MacOS ARM64) =
        pp_includes arm_mac_toolchain homebrew_pair (start MacOS ARM64)"
    and same: "conditional_block (arm_mac_toolchain\<lparr>header_dir := ''/tmp'', search_dirs := []\<rparr>)
         (start MacOS ARM64) = conditional_block arm_mac_toolchain (start MacOS ARM64)"
    by simp_all
  from run have "conditional_block arm_mac_toolchain (start MacOS ARM64) =
       Inr ((start MacOS ARM64)\<lparr>included := homebrew_pair\<rparr>)"
    by (simp add: run_arm_mac included_start)
  with same b show ?thesis by simp
qed

text \<open>
  C7. Including the header again is the same as including it once: \<open>n + 1\<close>
  inclusions in a row give the result of the first. Either mechanism is enough to skip
  the file, the \<^verbatim>\<open>#pragma once\<close> mark or the defined guard \<^verbatim>\<open>CFREETDS_H\<close>; a successful
  inclusion leaves a state from which the header is skipped. So over any number of
  inclusions the vendor headers are forwarded at most once: the includes carried out
  grow by nothing, or by \<^verbatim>\<open>sybdb.h\<close> and \<^verbatim>\<open>sybfront.h\<close> one time.
\<close>

theorem repeated_inclusion_is_idempotent:
  "include_times (Suc n) tc s = CFreeTDS_h tc s
   \<and> (pragma_once s \<or> pp_defined ''CFREETDS_H'' s \<longrightarrow> CFreeTDS_h tc s = Inr s)
   \<and> (\<forall>s'. CFreeTDS_h tc s = Inr s' \<longrightarrow> CFreeTDS_h tc s' = Inr s')
   \<and> (\<forall>s'. include_times (Suc n) tc s = Inr s' \<longrightarrow>
         included s' = included s \<or>
         (\<exists>d1 d2. included s' = included s @ [d1, d2] \<and>
            header_name d1 = ''sybdb.h'' \<and> header_name d2 = ''sybfront.h''))"
proof (intro conjI allI impI)
  show "include_times (Suc n) tc s = CFreeTDS_h tc s" by (rule include_again)
next
  assume "pragma_once s \<or> pp_defined ''CFREETDS_H'' s"
  then show "CFreeTDS_h tc s = Inr s" by (rule header_skipped)
next
  fix s' assume "CFreeTDS_h tc s = Inr s'"
  then have "pragma_once s' \<or> pp_defined ''CFREETDS_H'' s'" by (rule header_marks)
  then show "CFreeTDS_h tc s' = Inr s'" by (rule header_skipped)
next
  fix s' assume "include_times (Suc n) tc s = Inr s'"
  then have "CFreeTDS_h tc s = Inr s'" by (simp only: include_again)
  then show "included s' = included s \<or>
         (\<exists>d1 d2. included s' = included s @ [d1, d2] \<and>
            header_name d1 = ''sybdb.h'' \<and> header_name d2 = ''sybfront.h'')"
    by (rule header_adds_at_most_one_pair)
qed

theorem repeated_inclusion_is_idempotent_witness:
  "include_times 3 linux_toolchain (start Linux X86_64) =
     Inr \<lparr>macros = insert ''CFREETDS_H'' (predefined Linux X86_64), pragma_once = True,
          included = system_pair\<rparr>
   \<and> CFreeTDS_h linux_toolchain (start Linux X86_64) =
     Inr \<lparr>macros = insert ''CFREETDS_H'' (predefined Linux X86_64), pragma_once = True,
          included = system_pair\<rparr>"
proof -
  have first: "CFreeTDS_h linux_toolchain (start Linux X86_64) =
     Inr \<lparr>macros = insert ''CFREETDS_H'' (predefined Linux X86_64), pragma_once = True,
          included = system_pair\<rparr>"
  proof -
    let ?s = "pp_once (pp_define ''CFREETDS_H'' (start Linux X86_64))"
    have "\<not> pp_defined ''__APPLE__'' ?s"
      by (simp add: pp_defined_def pp_once_def pp_define_def start_def predefined_def)
    then have "conditional_block linux_toolchain ?s = pp_includes linux_toolchain system_pair ?s"
      by (rule block_not_apple)
    then show ?thesis
      by (simp add: header_first_inclusion first_inclusion_start run_linux)
         (simp add: pp_once_def pp_define_def start_def)
  qed
  have "include_times 3 linux_toolchain (start Linux X86_64) =
          include_times (Suc 2) linux_toolchain (start Linux X86_64)"
    by (simp only: numeral_3_eq_3 numeral_2_eq_2)
  also have "\<dots> = CFreeTDS_h linux_toolchain (start Linux X86_64)"
    using repeated_inclusion_is_idempotent [of 2 linux_toolchain "start Linux X86_64"]
    by (elim conjE)
  finally show ?thesis using first by simp
qed

text \<open>
  C8. On Apple platforms the Homebrew paths are selected whenever \<^verbatim>\<open>__x86_64__\<close> is not
  defined. No macro of the arm64 architecture is consulted: with \<^verbatim>\<open>__APPLE__\<close> defined
  and \<^verbatim>\<open>__x86_64__\<close> undefined the block includes the Homebrew pair, whatever else is
  defined. So every Apple target that is not x86_64, a 32-bit one for instance, takes the
  Homebrew branch.
\<close>

theorem apple_not_x86_64_takes_homebrew:
  "(pp_defined ''__APPLE__'' s \<and> \<not> pp_defined ''__x86_64__'' s \<longrightarrow>
      conditional_block tc s = pp_includes tc homebrew_pair s)
   \<and> (built_for s o' a \<and> is_apple o' \<and> a \<noteq> X86_64 \<longrightarrow>
      conditional_block tc s = pp_includes tc homebrew_pair s)"
proof (intro conjI impI)
  assume "pp_defined ''__APPLE__'' s \<and> \<not> pp_defined ''__x86_64__'' s"
  then show "conditional_block tc s = pp_includes tc homebrew_pair s"
    by (simp add: block_apple_other)
next
  assume t: "built_for s o' a \<and> is_apple o' \<and> a \<noteq> X86_64"
  then have "built_for s o' a" by simp
  from block_for_target [OF this, of tc] t
  show "conditional_block tc s = pp_includes tc homebrew_pair s" by simp
qed

theorem apple_not_x86_64_takes_homebrew_witness:
  "built_for (start MacOS I386) MacOS I386 \<and> is_apple MacOS \<and> I386 \<noteq> X86_64
   \<and> conditional_block arm_mac_toolchain (start MacOS I386) =
       Inr ((start MacOS I386)\<lparr>included := homebrew_pair\<rparr>)
   \<and> built_for (start MacOS ARM32) MacOS ARM32 \<and> ARM32 \<noteq> X86_64
   \<and> conditional_block arm_mac_toolchain (start MacOS ARM32) =
       Inr ((start MacOS ARM32)\<lparr>included := homebrew_pair\<rparr>)
   \<and> conditional_block bare_toolchain (start MacOS ARM32) =
       Inl (File_not_found (Quoted ''/opt/homebrew/opt/freetds/include/sybdb.h''))"
proof -
  have i386: "built_for (start MacOS I386) MacOS I386 \<and> is_apple MacOS \<and> I386 \<noteq> X86_64"
    and arm32: "built_for (start MacOS ARM32) MacOS ARM32 \<and> is_apple MacOS \<and> ARM32 \<noteq> X86_64"
    by (simp_all add: built_for_start)
  have "conditional_block arm_mac_toolchain (start MacOS I386) =
      pp_includes arm_mac_toolchain homebrew_pair (start MacOS I386)"
    by (rule apple_not_x86_64_takes_homebrew [THEN conjunct2, THEN mp, OF i386])
  moreover have "conditional_block arm_mac_toolchain (start MacOS ARM32) =
      pp_includes arm_mac_toolchain homebrew_pair (start MacOS ARM32)"
    by (rule apple_not_x86_64_takes_homebrew [THEN conjunct2, THEN mp, OF arm32])
  moreover have "conditional_block bare_toolchain (start MacOS ARM32) =
      pp_includes bare_toolchain homebrew_pair (start MacOS ARM32)"
    by (rule apple_not_x86_64_takes_homebrew [THEN conjunct2, THEN mp, OF arm32])
  moreover have "pp_includes bare_toolchain homebrew_pair (start MacOS ARM32) =
      Inl (File_not_found (Quoted ''/opt/homebrew/opt/freetds/include/sybdb.h''))"
    unfolding homebrew_pair_def by (rule run_bare)
  ultimately show ?thesis
    using i386 arm32 by (simp add: run_arm_mac included_start)
qed

text \<open>
  C9. On a platform that is not Apple's the architecture plays no part. Every build
  includes \<^verbatim>\<open><sybdb.h>\<close> and \<^verbatim>\<open><sybfront.h>\<close>; two builds for the same operating system
  that differ in architecture have the same outcome with the same toolchain, for the
  block from any two states with the same includes carried out, and for the whole header
  from the start of a translation unit.
\<close>

theorem non_apple_ignores_architecture:
  assumes "\<not> is_apple o'"
  shows "(built_for s o' a \<longrightarrow> conditional_block tc s = pp_includes tc system_pair s)
       \<and> (built_for s1 o' a1 \<and> built_for s2 o' a2 \<and> included s1 = included s2 \<longrightarrow>
            outcome (conditional_block tc s1) = outcome (conditional_block tc s2))
       \<and> outcome (CFreeTDS_h tc (start o' a1)) = outcome (CFreeTDS_h tc (start o' a2))"
proof (intro conjI impI)
  assume "built_for s o' a"
  from block_for_target [OF this, of tc] assms
  show "conditional_block tc s = pp_includes tc system_pair s" by simp
next
  assume both: "built_for s1 o' a1 \<and> built_for s2 o' a2 \<and> included s1 = included s2"
  then have b1: "built_for s1 o' a1" and b2: "built_for s2 o' a2"
    and inc: "included s1 = included s2" by simp_all
  have r1: "conditional_block tc s1 = pp_includes tc system_pair s1"
    using block_for_target [OF b1, of tc] assms by simp
  have r2: "conditional_block tc s2 = pp_includes tc system_pair s2"
    using block_for_target [OF b2, of tc] assms by simp
  from inc show "outcome (conditional_block tc s1) = outcome (conditional_block tc s2)"
    unfolding r1 r2 by (rule outcome_includes)
next
  have "included (pp_once (pp_define ''CFREETDS_H'' (start o' a1))) =
        included (pp_once (pp_define ''CFREETDS_H'' (start o' a2)))"
    by (simp add: pp_once_def pp_define_def start_def)
  then have "outcome (pp_includes tc system_pair (pp_once (pp_define ''CFREETDS_H'' (start o' a1)))) =
        outcome (pp_includes tc system_pair (pp_once (pp_define ''CFREETDS_H'' (start o' a2))))"
    by (rule outcome_includes)
  with assms show "outcome (CFreeTDS_h tc (start o' a1)) = outcome (CFreeTDS_h tc (start o' a2))"
    by (simp add: header_from_start)
qed

theorem non_apple_ignores_architecture_witness:
  "\<not> is_apple Linux
   \<and> outcome (CFreeTDS_h linux_toolchain (start Linux X86_64)) = Inr system_pair
   \<and> outcome (CFreeTDS_h linux_toolchain (start Linux ARM64)) = Inr system_pair
   \<and> outcome (CFreeTDS_h bare_toolchain (start Linux X86_64)) =
       Inl (File_not_found (Angled ''sybdb.h''))
   \<and> outcome (CFreeTDS_h bare_toolchain (start Linux ARM64)) =
       Inl (File_not_found (Angled ''sybdb.h''))"
proof -
  have linux: "\<not> is_apple Linux" by simp
  have same: "outcome (CFreeTDS_h tc (start Linux X86_64)) =
      outcome (CFreeTDS_h tc (start Linux ARM64))" for tc
    by (rule non_apple_ignores_architecture [OF linux, THEN conjunct2, THEN conjunct2])
  have "outcome (CFreeTDS_h linux_toolchain (start Linux ARM64)) = Inr system_pair"
    by (simp add: header_from_start run_linux outcome_def)
       (simp add: pp_once_def pp_define_def start_def)
  moreover have "outcome (CFreeTDS_h bare_toolchain (start Linux ARM64)) =
       Inl (File_not_found (Angled ''sybdb.h''))"
  proof -
    have "CFreeTDS_h bare_toolchain (start Linux ARM64) =
        pp_includes bare_toolchain system_pair (pp_once (pp_define ''CFREETDS_H'' (start Linux ARM64)))"
      by (simp add: header_from_start)
    also have "\<dots> = Inl (File_not_found (Angled ''sybdb.h''))"
      unfolding system_pair_def by (rule run_bare)
    finally show ?thesis by (simp add: outcome_def)
  qed
  ultimately show ?thesis using same [of linux_toolchain] same [of bare_toolchain] by simp
qed

end
